theory Spec2Isabelle
  imports Complex_Main "HOL-Library.Word"
begin

section \<open>JavaScript strings\<close>

text \<open>
  A JavaScript string is a sequence of UTF-16 code units. The worker compares strings with
  \<^verbatim>\<open>===\<close>, splits and trims them, and hands them to \<^verbatim>\<open>btoa\<close>, which throws on
  a code unit above 255; so a code unit is a 16-bit word, not an 8-bit \<^typ>\<open>char\<close>.
  \<open>js\<close> writes a literal of the source.
\<close>

type_synonym jsstring = "16 word list"

definition js :: "string \<Rightarrow> jsstring" where
  "js s = map (\<lambda>c. of_nat (of_char c)) s"

text \<open>\<^verbatim>\<open>String(n)\<close> for a non-negative integer (template literals with a status code).\<close>

fun digits :: "nat \<Rightarrow> jsstring" where
  "digits n = (if n < 10 then [of_nat (48 + n)] else digits (n div 10) @ [of_nat (48 + n mod 10)])"

text \<open>\<^verbatim>\<open>s.split(sep)\<close> for a separator of one code unit: never the empty array.\<close>

fun split_on :: "'a \<Rightarrow> 'a list \<Rightarrow> 'a list list" where
  "split_on sep [] = [[]]"
| "split_on sep (c # cs) =
     (if c = sep then [] # split_on sep cs
      else (case split_on sep cs of
              [] \<Rightarrow> [[c]]
            | p # ps \<Rightarrow> (c # p) # ps))"

text \<open>\<^verbatim>\<open>parts.join(sep)\<close>.\<close>

fun join :: "'a list \<Rightarrow> 'a list list \<Rightarrow> 'a list" where
  "join sep [] = []"
| "join sep [x] = x"
| "join sep (x # y # ys) = x @ sep @ join sep (y # ys)"

text \<open>
  \<^verbatim>\<open>s.trim()\<close> removes the code units of ECMAScript's WhiteSpace and LineTerminator
  productions from both ends.
\<close>

definition is_ws :: "16 word \<Rightarrow> bool" where
  "is_ws c \<longleftrightarrow>
     c = 0x09 \<or> c = 0x0A \<or> c = 0x0B \<or> c = 0x0C \<or> c = 0x0D \<or> c = 0x20 \<or> c = 0xA0 \<or>
     c = 0x1680 \<or> (0x2000 \<le> c \<and> c \<le> 0x200A) \<or> c = 0x2028 \<or> c = 0x2029 \<or>
     c = 0x202F \<or> c = 0x205F \<or> c = 0x3000 \<or> c = 0xFEFF"

definition trim :: "jsstring \<Rightarrow> jsstring" where
  "trim s = rev (dropWhile is_ws (rev (dropWhile is_ws s)))"

text \<open>\<^verbatim>\<open>s.startsWith(p)\<close> and \<^verbatim>\<open>s.includes('.')\<close>.\<close>

definition startsWith :: "jsstring \<Rightarrow> jsstring \<Rightarrow> bool" where
  "startsWith s p \<longleftrightarrow> take (length p) s = p"

definition includes_dot :: "jsstring \<Rightarrow> bool" where
  "includes_dot s \<longleftrightarrow> 0x2E \<in> set s"

section \<open>The platform's \<^verbatim>\<open>btoa\<close>\<close>

text \<open>
  \<^verbatim>\<open>btoa\<close> is the platform's base64 encoder of a binary string: it throws
  (\<open>None\<close>) when a code unit is above 255, and otherwise encodes the code units as bytes,
  three bytes to four characters of the alphabet, padding the last group with \<open>=\<close>.
\<close>

definition b64_alphabet :: jsstring where
  "b64_alphabet = js ''ABCDEFGHIJKLMNOPQRSTUVWXYZabcdefghijklmnopqrstuvwxyz0123456789+/''"

definition b64_char :: "nat \<Rightarrow> 16 word" where
  "b64_char n = b64_alphabet ! n"

definition b64_pad :: "16 word" where
  "b64_pad = 0x3D"

fun b64_encode :: "nat list \<Rightarrow> jsstring" where
  "b64_encode [] = []"
| "b64_encode [a] =
     [b64_char (a div 4), b64_char ((a mod 4) * 16), b64_pad, b64_pad]"
| "b64_encode [a, b] =
     [b64_char (a div 4), b64_char ((a mod 4) * 16 + b div 16),
      b64_char ((b mod 16) * 4), b64_pad]"
| "b64_encode (a # b # c # rest) =
     [b64_char (a div 4), b64_char ((a mod 4) * 16 + b div 16),
      b64_char ((b mod 16) * 4 + c div 64), b64_char (c mod 64)] @ b64_encode rest"

definition btoa :: "jsstring \<Rightarrow> jsstring option" where
  "btoa s = (if \<exists>c \<in> set s. 255 < c then None else Some (b64_encode (map unat s)))"

text \<open>
  \<^verbatim>\<open>btoa(env.PASSWORD)\<close> converts its argument to a string first: an absent binding is
  \<^verbatim>\<open>undefined\<close>, and \<^verbatim>\<open>String(undefined)\<close> is the nine letters of \<open>undefined\<close>.
\<close>

definition ToString :: "jsstring option \<Rightarrow> jsstring" where
  "ToString v = (case v of None \<Rightarrow> js ''undefined'' | Some s \<Rightarrow> s)"

section \<open>Requests, responses and the environment\<close>

text \<open>
  The values that \<^verbatim>\<open>request.json()\<close> and \<^verbatim>\<open>JSON.parse\<close> yield. A number is a
  double: a finite one other than \<open>-0\<close> by its exact value, \<open>-0\<close>, or an infinity
  (a literal beyond the range of doubles, such as \<open>1e400\<close>, parses to
  \<^verbatim>\<open>Infinity\<close>); the parser yields no \<^verbatim>\<open>NaN\<close>. The text codec itself
  (\<^verbatim>\<open>JSON.stringify\<close>, \<^verbatim>\<open>JSON.parse\<close>) belongs to the platform and is a parameter
  of the handlers, as are the messages of the exceptions that \<^verbatim>\<open>btoa\<close> and the
  \<^verbatim>\<open>Response\<close> constructor throw.
\<close>

datatype jsnumber = Finite rat | NegZero | PosInfinity | NegInfinity

datatype json =
    JNull
  | JBool bool
  | JNum jsnumber
  | JStr jsstring
  | JArr "json list"
  | JObj "(jsstring \<times> json) list"

record platform =
  JSON_stringify :: "json \<Rightarrow> jsstring"
  JSON_parse :: "jsstring \<Rightarrow> json option"
  InvalidCharacterError_message :: jsstring
  Response_RangeError_message :: jsstring
  Response_TypeError_message :: jsstring

text \<open>Truthiness, for \<^verbatim>\<open>data || { jobs: [], payments: [] }\<close>.\<close>

fun truthy :: "json \<Rightarrow> bool" where
  "truthy JNull = False"
| "truthy (JBool b) = b"
| "truthy (JNum n) = (n \<noteq> Finite 0 \<and> n \<noteq> NegZero)"
| "truthy (JStr s) = (s \<noteq> [])"
| "truthy (JArr xs) = True"
| "truthy (JObj kvs) = True"

text \<open>
  What a handler reads of a request: the method, the path of the URL, two headers, and
  the outcomes of the two body readers. \<^verbatim>\<open>await request.json()\<close> either yields a value
  or throws with a message; \<^verbatim>\<open>await request.formData()\<close> either throws or yields a
  form whose \<open>password\<close> entry is missing, a string, or a file.
\<close>

datatype form_entry = NoEntry | TextEntry jsstring | FileEntry

record request =
  req_method :: jsstring
  req_pathname :: jsstring
  req_cookie :: "jsstring option"
  req_accept :: "jsstring option"
  req_json :: "jsstring + json"
  req_form_password :: "jsstring + form_entry"

text \<open>
  A response: status, headers (names in lower case, as \<^verbatim>\<open>Headers\<close> keeps them) and
  body. \<open>headers\<close> holds the headers that the code sets or relays; the content type that
  the \<^verbatim>\<open>Response\<close> constructor adds for a string body is not modelled. The login page
  is a fixed HTML template around the error text.
\<close>

datatype body = NoBody | Text jsstring | LoginHtml jsstring

record response =
  status :: nat
  headers :: "(jsstring \<times> jsstring) list"
  body :: body

text \<open>
  The environment: the shared secret (absent when the binding is not configured) and the
  key-value namespace, a map from keys to stored text with atomic get and put.
\<close>

record env =
  PASSWORD :: "jsstring option"
  SUBTRACK_DATA :: "jsstring \<rightharpoonup> jsstring"

datatype js_error = SyntaxError | NetworkError jsstring

section \<open>The worker\<close>

definition COOKIE_NAME :: jsstring where
  "COOKIE_NAME = js ''subtrack_auth''"

definition COOKIE_MAX_AGE :: nat where
  "COOKIE_MAX_AGE = 60 * 60 * 24 * 30"

definition GITHUB_ORIGIN :: jsstring where
  "GITHUB_ORIGIN = js ''https://panpapadopoulos.github.io''"

definition GITHUB_PATH :: jsstring where
  "GITHUB_PATH = js ''/subtrack''"

text \<open>
  \<open>parseCookies\<close>: the object \<open>cookies\<close> as a map; a later cookie of the same name
  overwrites an earlier one. The worker reads one key of it, \<open>COOKIE_NAME\<close>, which no
  prototype property shadows.
\<close>

definition parseCookies_step :: "jsstring \<Rightarrow> (jsstring \<rightharpoonup> jsstring) \<Rightarrow> (jsstring \<rightharpoonup> jsstring)" where
  "parseCookies_step c cookies =
     (case split_on 0x3D (trim c) of
        [] \<Rightarrow> cookies
      | n # r \<Rightarrow> if n \<noteq> [] then cookies(n \<mapsto> join [0x3D] r) else cookies)"

definition parseCookies :: "jsstring \<Rightarrow> (jsstring \<rightharpoonup> jsstring)" where
  "parseCookies header =
     (if header = [] then Map.empty
      else fold parseCookies_step (split_on 0x3B header) Map.empty)"

definition checkAuth :: "request \<Rightarrow> env \<Rightarrow> bool" where
  "checkAuth request e =
     (let cookies = parseCookies (case req_cookie request of None \<Rightarrow> [] | Some h \<Rightarrow> h)
      in case cookies COOKIE_NAME of
           None \<Rightarrow> False
         | Some authToken \<Rightarrow>
             if authToken = [] then False
             else (case btoa (ToString (PASSWORD e)) of
                     None \<Rightarrow> False
                   | Some expectedToken \<Rightarrow> authToken = expectedToken))"

definition serveLoginPage :: "jsstring \<Rightarrow> response" where
  "serveLoginPage error =
     \<lparr>status = 200, headers = [(js ''content-type'', js ''text/html'')], body = LoginHtml error\<rparr>"

definition empty_dataset :: json where
  "empty_dataset = JObj [(js ''jobs'', JArr []), (js ''payments'', JArr [])]"

text \<open>
  \<^verbatim>\<open>env.SUBTRACK_DATA.get(key, 'json')\<close>: \<^verbatim>\<open>null\<close> for an absent key, the parsed
  text otherwise; it throws when the stored text is not JSON.
\<close>

definition kv_get_json :: "platform \<Rightarrow> env \<Rightarrow> jsstring \<Rightarrow> js_error + json" where
  "kv_get_json J e k =
     (case SUBTRACK_DATA e k of
        None \<Rightarrow> Inr JNull
      | Some t \<Rightarrow> (case JSON_parse J t of None \<Rightarrow> Inl SyntaxError | Some v \<Rightarrow> Inr v))"

definition kv_put :: "env \<Rightarrow> jsstring \<Rightarrow> jsstring \<Rightarrow> env" where
  "kv_put e k v = e\<lparr>SUBTRACK_DATA := (SUBTRACK_DATA e)(k \<mapsto> v)\<rparr>"

text \<open>
  \<open>handleAPI\<close> returns the response, or the exception that escapes the handler, and the
  environment after the request.
\<close>

definition handleAPI :: "platform \<Rightarrow> request \<Rightarrow> env \<Rightarrow> (js_error + response) \<times> env" where
  "handleAPI J request e =
     (if \<not> checkAuth request e then
        (Inr \<lparr>status = 401, headers = [],
              body = Text (JSON_stringify J (JObj [(js ''error'', JStr (js ''Unauthorized''))]))\<rparr>, e)
      else if req_pathname request = js ''/api/data'' \<and> req_method request = js ''GET'' then
        (case kv_get_json J e (js ''user_data'') of
           Inl err \<Rightarrow> (Inl err, e)
         | Inr data \<Rightarrow>
             (Inr \<lparr>status = 200, headers = [(js ''content-type'', js ''application/json'')],
                   body = Text (JSON_stringify J (if truthy data then data else empty_dataset))\<rparr>, e))
      else if req_pathname request = js ''/api/data'' \<and> req_method request = js ''POST'' then
        (case req_json request of
           Inr data \<Rightarrow>
             (Inr \<lparr>status = 200, headers = [],
                   body = Text (JSON_stringify J (JObj [(js ''success'', JBool True)]))\<rparr>,
              kv_put e (js ''user_data'') (JSON_stringify J data))
         | Inl message \<Rightarrow>
             (Inr \<lparr>status = 400, headers = [],
                   body = Text (JSON_stringify J (JObj [(js ''error'', JStr message)]))\<rparr>, e))
      else
        (Inr \<lparr>status = 404, headers = [], body = Text (js ''Not found'')\<rparr>, e))"

text \<open>
  \<open>handleLogin\<close>: \<^verbatim>\<open>password === env.PASSWORD\<close> holds only for a string entry equal to
  a configured secret (\<^verbatim>\<open>null\<close> and a file differ from every string and from
  \<^verbatim>\<open>undefined\<close>); an exception of \<^verbatim>\<open>formData\<close> or of \<^verbatim>\<open>btoa\<close> is caught.
\<close>

definition handleLogin :: "platform \<Rightarrow> request \<Rightarrow> env \<Rightarrow> response" where
  "handleLogin J request e =
     (case req_form_password request of
        Inl message \<Rightarrow> serveLoginPage (js ''Login failed: '' @ message)
      | Inr password \<Rightarrow>
          if (case password of TextEntry p \<Rightarrow> PASSWORD e = Some p | _ \<Rightarrow> False) then
            (case btoa (ToString (PASSWORD e)) of
               None \<Rightarrow> serveLoginPage (js ''Login failed: '' @ InvalidCharacterError_message J)
             | Some token \<Rightarrow>
                 \<lparr>status = 302,
                  headers = [(js ''location'', js ''/''),
                             (js ''set-cookie'',
                              COOKIE_NAME @ js ''='' @ token
                                @ js ''; Path=/; HttpOnly; Secure; SameSite=Strict; Max-Age=''
                                @ digits COOKIE_MAX_AGE)],
                  body = NoBody\<rparr>)
          else serveLoginPage (js ''Invalid password''))"

definition handleLogout :: response where
  "handleLogout =
     \<lparr>status = 302,
      headers = [(js ''location'', js ''/''),
                 (js ''set-cookie'',
                  COOKIE_NAME @ js ''=; Path=/; HttpOnly; Secure; SameSite=Strict; Max-Age=0'')],
      body = NoBody\<rparr>"

text \<open>
  The upstream origin: what the \<open>n\<close>-th \<^verbatim>\<open>fetch\<close> of a request's handling answers,
  a response or a rejection with a message. \<open>proxyToGitHub\<close> returns its result together
  with the fetches it issued, in order.
\<close>

record fetch_request =
  fetch_url :: jsstring
  fetch_headers :: "(jsstring \<times> jsstring) list"

datatype fetch_outcome = Rejected jsstring | Answered response

type_synonym upstream = "nat \<Rightarrow> fetch_request \<Rightarrow> fetch_outcome"

definition ok :: "response \<Rightarrow> bool" where
  "ok r \<longleftrightarrow> 200 \<le> status r \<and> status r \<le> 299"

text \<open>
  \<^verbatim>\<open>new Response(body, {status, headers})\<close> with a status that is not a constant of the
  code: the constructor throws a \<^verbatim>\<open>RangeError\<close> for a status outside 200 to 599, and
  a \<^verbatim>\<open>TypeError\<close> for a body that is not \<^verbatim>\<open>null\<close> with a null-body status.
\<close>

definition null_body_status :: "nat \<Rightarrow> bool" where
  "null_body_status s \<longleftrightarrow> s = 101 \<or> s = 103 \<or> s = 204 \<or> s = 205 \<or> s = 304"

definition new_Response ::
  "platform \<Rightarrow> body \<Rightarrow> nat \<Rightarrow> (jsstring \<times> jsstring) list \<Rightarrow> jsstring + response" where
  "new_Response J b s hs =
     (if s < 200 \<or> 599 < s then Inl (Response_RangeError_message J)
      else if b \<noteq> NoBody \<and> null_body_status s then Inl (Response_TypeError_message J)
      else Inr \<lparr>status = s, headers = hs, body = b\<rparr>)"

definition headers_delete :: "jsstring \<Rightarrow> (jsstring \<times> jsstring) list \<Rightarrow> (jsstring \<times> jsstring) list" where
  "headers_delete name hs = filter (\<lambda>(n, v). n \<noteq> name) hs"

definition headers_set :: "jsstring \<Rightarrow> jsstring \<Rightarrow> (jsstring \<times> jsstring) list \<Rightarrow> (jsstring \<times> jsstring) list" where
  "headers_set name v hs = headers_delete name hs @ [(name, v)]"

definition proxyToGitHub ::
  "platform \<Rightarrow> upstream \<Rightarrow> request \<Rightarrow> (js_error + response) \<times> fetch_request list" where
  "proxyToGitHub J up request =
     (let path = (if req_pathname request = js ''/'' \<or> \<not> includes_dot (req_pathname request)
                  then js ''/index.html'' else req_pathname request);
          githubUrl = GITHUB_ORIGIN @ GITHUB_PATH @ path;
          first = \<lparr>fetch_url = githubUrl,
                   fetch_headers =
                     [(js ''host'', js ''panpapadopoulos.github.io''),
                      (js ''user-agent'', js ''SubTrack-Pro-Worker''),
                      (js ''accept'',
                       (case req_accept request of
                          None \<Rightarrow> js ''*/*''
                        | Some a \<Rightarrow> if a = [] then js ''*/*'' else a))]\<rparr>
      in case up 0 first of
           Rejected message \<Rightarrow>
             (Inr \<lparr>status = 502, headers = [], body = Text (js ''Worker Exception: '' @ message)\<rparr>,
              [first])
         | Answered response \<Rightarrow>
             if \<not> ok response then
               if status response = 404 \<and> \<not> includes_dot path then
                 (let retry = \<lparr>fetch_url = GITHUB_ORIGIN @ GITHUB_PATH @ js ''/index.html'',
                               fetch_headers = [(js ''host'', js ''panpapadopoulos.github.io'')]\<rparr>
                  in (case up 1 retry of
                        Rejected message \<Rightarrow> Inl (NetworkError message)
                      | Answered r \<Rightarrow> Inr r,
                      [first, retry]))
               else
                 (case new_Response J
                         (Text (js ''Origin Error: '' @ digits (status response)
                                  @ js '' for '' @ githubUrl))
                         (status response)
                         [(js ''content-type'', js ''text/plain'')] of
                    Inl message \<Rightarrow>
                      (Inr \<lparr>status = 502, headers = [],
                            body = Text (js ''Worker Exception: '' @ message)\<rparr>,
                       [first])
                  | Inr r \<Rightarrow> (Inr r, [first]))
             else
               (case new_Response J (body response) (status response)
                       (headers_set (js ''x-proxied-by'') (js ''SubTrack-Proxy'')
                          (headers_delete (js ''content-security-policy'')
                             (headers_delete (js ''x-frame-options'') (headers response)))) of
                  Inl message \<Rightarrow>
                    (Inr \<lparr>status = 502, headers = [],
                          body = Text (js ''Worker Exception: '' @ message)\<rparr>,
                     [first])
                | Inr r \<Rightarrow> (Inr r, [first])))"

text \<open>The router: \<^verbatim>\<open>fetch(request, env, ctx)\<close>.\<close>

definition worker_fetch ::
  "platform \<Rightarrow> upstream \<Rightarrow> request \<Rightarrow> env \<Rightarrow> (js_error + response) \<times> env \<times> fetch_request list" where
  "worker_fetch J up request e =
     (if startsWith (req_pathname request) (js ''/api/'') then
        (case handleAPI J request e of (r, e') \<Rightarrow> (r, e', []))
      else if req_pathname request = js ''/login'' \<and> req_method request = js ''POST'' then
        (Inr (handleLogin J request e), e, [])
      else if req_pathname request = js ''/logout'' then
        (Inr handleLogout, e, [])
      else if \<not> checkAuth request e then
        (Inr (serveLoginPage []), e, [])
      else
        (case proxyToGitHub J up request of (r, issued) \<Rightarrow> (r, e, issued)))"

section \<open>The client's sync controller\<close>

datatype day_type = Half | Full

record Job =
  job_id :: jsstring
  job_date :: jsstring
  job_className :: jsstring
  job_teacher :: jsstring
  job_school :: jsstring
  job_town :: jsstring
  job_dayType :: day_type
  job_fromTime :: jsstring
  job_toTime :: jsstring
  job_hours :: rat

record Payment =
  pay_id :: jsstring
  pay_date :: jsstring
  pay_town :: jsstring
  pay_amount :: rat

record AppData =
  jobs :: "Job list"
  payments :: "Payment list"

text \<open>
  What \<open>fetchData\<close> resolves to: the component reads \<^verbatim>\<open>data.jobs || []\<close> and
  \<^verbatim>\<open>data.payments || []\<close>, so either field may be missing.
\<close>

record fetched =
  fetched_jobs :: "Job list option"
  fetched_payments :: "Payment list option"

text \<open>
  The state of \<open>App\<close> that the two effects and \<open>debouncedSave\<close> read and write: the
  two collections, \<open>isLoading\<close>, the two refs, the timers that are pending (identifier,
  deadline in milliseconds, and the arguments the callback closes over), a virtual clock,
  and the calls of \<open>saveData\<close> issued so far (time and payload).
\<close>

record client =
  c_jobs :: "Job list"
  c_payments :: "Payment list"
  isLoading :: bool
  isInitialMount :: bool
  saveTimeoutRef :: "nat option"
  timers :: "(nat \<times> nat \<times> AppData) list"
  next_timer :: nat
  clock :: nat
  writes :: "(nat \<times> AppData) list"

definition initial_client :: client where
  "initial_client =
     \<lparr>c_jobs = [], c_payments = [], isLoading = True, isInitialMount = True,
      saveTimeoutRef = None, timers = [], next_timer = 1, clock = 0, writes = []\<rparr>"

definition clearTimeout :: "nat \<Rightarrow> client \<Rightarrow> client" where
  "clearTimeout i s = s\<lparr>timers := filter (\<lambda>(j, deadline, payload). j \<noteq> i) (timers s)\<rparr>"

text \<open>
  \<open>debouncedSave(jobs, payments)\<close>, called with the collections of the current render.
  Timer identifiers are positive, so \<^verbatim>\<open>if (saveTimeoutRef.current)\<close> tests for
  \<^verbatim>\<open>null\<close>.
\<close>

definition debouncedSave :: "client \<Rightarrow> client" where
  "debouncedSave s =
     (let s1 = (case saveTimeoutRef s of None \<Rightarrow> s | Some i \<Rightarrow> clearTimeout i s);
          i = next_timer s1
      in s1\<lparr>timers := timers s1 @ [(i, clock s1 + 500, \<lparr>jobs = c_jobs s1, payments = c_payments s1\<rparr>)],
            next_timer := i + 1,
            saveTimeoutRef := Some i\<rparr>)"

text \<open>
  The save effect, run after a render in which one of its dependencies (\<open>jobs\<close>,
  \<open>payments\<close>, \<open>isLoading\<close>) changed. \<open>isSaving\<close> is not among them, so the
  renders that the timer callback causes do not run it.
\<close>

definition save_effect :: "client \<Rightarrow> client" where
  "save_effect s =
     (if isInitialMount s then s\<lparr>isInitialMount := False\<rparr>
      else if \<not> isLoading s then debouncedSave s
      else s)"

text \<open>
  Time passes: every timer whose deadline is reached runs its callback, which calls
  \<open>saveData\<close> with the payload it closed over. Timers are kept in creation order, which
  is deadline order, every delay being 500. A callback is taken to run at its deadline, the
  earliest moment \<^verbatim>\<open>setTimeout\<close> allows.
\<close>

definition tick :: "nat \<Rightarrow> client \<Rightarrow> client" where
  "tick d s =
     s\<lparr>clock := clock s + d,
       timers := filter (\<lambda>(i, deadline, payload). \<not> deadline \<le> clock s + d) (timers s),
       writes := writes s
                   @ map (\<lambda>(i, deadline, payload). (deadline, payload))
                       (filter (\<lambda>(i, deadline, payload). deadline \<le> clock s + d) (timers s))\<rparr>"

text \<open>
  The events of an execution. \<open>Mount\<close> is the first render and its effects (the load
  effect starts \<open>fetchData\<close>). \<open>LoadDone\<close> is the continuation of \<open>loadData\<close> after
  the fetch: three state updates, one render. \<open>Mutate f g\<close> is a handler that updates the
  collections with \<^verbatim>\<open>setJobs(f)\<close> and \<^verbatim>\<open>setPayments(g)\<close>; every updater of the
  component builds a new array, so the dependencies of the save effect change.
  \<open>Tick d\<close> lets \<open>d\<close> milliseconds pass.
\<close>

datatype event =
    Mount
  | LoadDone fetched
  | Mutate "Job list \<Rightarrow> Job list" "Payment list \<Rightarrow> Payment list"
  | Tick nat

fun step :: "event \<Rightarrow> client \<Rightarrow> client" where
  "step Mount s = save_effect s"
| "step (LoadDone data) s =
     save_effect
       (s\<lparr>c_jobs := (case fetched_jobs data of None \<Rightarrow> [] | Some loaded \<Rightarrow> loaded),
          c_payments := (case fetched_payments data of None \<Rightarrow> [] | Some loaded \<Rightarrow> loaded),
          isLoading := False\<rparr>)"
| "step (Mutate f g) s = save_effect (s\<lparr>c_jobs := f (c_jobs s), c_payments := g (c_payments s)\<rparr>)"
| "step (Tick d) s = tick d s"

definition run :: "event list \<Rightarrow> client \<Rightarrow> client" where
  "run evs s = fold step evs s"

section \<open>Sample data\<close>

text \<open>
  Concrete inputs on which the theorems below are evaluated: three datasets, a platform
  whose codec is given on the few documents the samples use, environments with the secret
  \<open>pw\<close> (whose token is \<open>cHc=\<close>), requests, and an upstream that answers the first
  fetch with 404. \<open>overflow_dataset\<close> is what \<^verbatim>\<open>request.json()\<close> yields for the body
  \<^verbatim>\<open>{"jobs":[{"id":"job-1","hours":1e400}],"payments":[]}\<close>; \<^verbatim>\<open>JSON.stringify\<close>
  prints its \<^verbatim>\<open>Infinity\<close> as \<^verbatim>\<open>null\<close>, and that text parses to
  \<open>null_hours_dataset\<close>.
\<close>

definition one_job_dataset :: json where
  "one_job_dataset =
     JObj [(js ''jobs'', JArr [JObj [(js ''id'', JStr (js ''job-1'')),
                                     (js ''hours'', JNum (Finite (15 / 2)))]]),
           (js ''payments'', JArr [])]"

definition overflow_dataset :: json where
  "overflow_dataset =
     JObj [(js ''jobs'', JArr [JObj [(js ''id'', JStr (js ''job-1'')),
                                     (js ''hours'', JNum PosInfinity)]]),
           (js ''payments'', JArr [])]"

definition null_hours_dataset :: json where
  "null_hours_dataset =
     JObj [(js ''jobs'', JArr [JObj [(js ''id'', JStr (js ''job-1'')),
                                     (js ''hours'', JNull)]]),
           (js ''payments'', JArr [])]"

definition sample_stringify :: "json \<Rightarrow> jsstring" where
  \<open>sample_stringify v =
     (if v = empty_dataset then js ''{"jobs":[],"payments":[]}''
      else if v = JObj [(js ''success'', JBool True)] then js ''{"success":true}''
      else if v = JObj [(js ''error'', JStr (js ''Unauthorized''))] then js ''{"error":"Unauthorized"}''
      else if v = one_job_dataset then js ''{"jobs":[{"id":"job-1","hours":7.5}],"payments":[]}''
      else if v = overflow_dataset then js ''{"jobs":[{"id":"job-1","hours":null}],"payments":[]}''
      else if v = null_hours_dataset then js ''{"jobs":[{"id":"job-1","hours":null}],"payments":[]}''
      else js ''null'')\<close>

definition sample_parse :: "jsstring \<Rightarrow> json option" where
  \<open>sample_parse t =
     (if t = js ''{"jobs":[],"payments":[]}'' then Some empty_dataset
      else if t = js ''null'' then Some JNull
      else if t = js ''{"jobs":[{"id":"job-1","hours":7.5}],"payments":[]}'' then Some one_job_dataset
      else if t = js ''{"jobs":[{"id":"job-1","hours":null}],"payments":[]}'' then Some null_hours_dataset
      else None)\<close>

definition sample_platform :: platform where
  "sample_platform =
     \<lparr>JSON_stringify = sample_stringify, JSON_parse = sample_parse,
      InvalidCharacterError_message = js ''Invalid character'',
      Response_RangeError_message = js ''Invalid status'',
      Response_TypeError_message = js ''Null body status with a body''\<rparr>"

definition sample_env :: env where
  "sample_env = \<lparr>PASSWORD = Some (js ''pw''), SUBTRACK_DATA = Map.empty\<rparr>"


definition sample_request :: "string \<Rightarrow> string \<Rightarrow> string option \<Rightarrow> request" where
  "sample_request m p c =
     \<lparr>req_method = js m, req_pathname = js p, req_cookie = map_option js c, req_accept = None,
      req_json = Inl (js ''Unexpected end of JSON input''), req_form_password = Inr NoEntry\<rparr>"

definition sample_upstream :: upstream where
  "sample_upstream n r =
     (if n = 0 then Answered \<lparr>status = 404, headers = [], body = Text (js ''Not Found'')\<rparr>
      else Answered \<lparr>status = 200, headers = [], body = Text (js ''index'')\<rparr>)"

text \<open>A job for the sample executions of the client.\<close>

definition sample_job :: Job where
  "sample_job =
     \<lparr>job_id = js ''job-1'', job_date = js ''2024-03-01'', job_className = js ''Math'',
      job_teacher = js ''Smith'', job_school = js ''Central'', job_town = js ''Munster'',
      job_dayType = Full, job_fromTime = js ''08:00'', job_toTime = js ''15:00'', job_hours = 7\<rparr>"

section \<open>Bursts of mutations\<close>

text \<open>
  A burst is a list of mutations, each followed by the pause before the next one.
  \<open>mutated\<close> is the working copy after a list of mutations. \<open>ready\<close> is the state
  after the initial load. \<open>timers_owned\<close> says that the only timers pending are those
  that \<open>saveTimeoutRef\<close> points at; it holds in every state the component reaches.
\<close>

type_synonym mutation = "(Job list \<Rightarrow> Job list) \<times> (Payment list \<Rightarrow> Payment list)"

fun burst :: "(mutation \<times> nat) list \<Rightarrow> event list" where
  "burst [] = []"
| "burst (((f, g), d) # ms) = Mutate f g # Tick d # burst ms"

fun mutated :: "mutation list \<Rightarrow> AppData \<Rightarrow> AppData" where
  "mutated [] a = a"
| "mutated ((f, g) # ms) a = mutated ms \<lparr>jobs = f (jobs a), payments = g (payments a)\<rparr>"

definition working_copy :: "client \<Rightarrow> AppData" where
  "working_copy s = \<lparr>jobs = c_jobs s, payments = c_payments s\<rparr>"

definition ready :: "client \<Rightarrow> bool" where
  "ready s \<longleftrightarrow> \<not> isLoading s \<and> \<not> isInitialMount s"

definition timers_owned :: "client \<Rightarrow> bool" where
  "timers_owned s \<longleftrightarrow> list_all (\<lambda>(i, deadline, payload). saveTimeoutRef s = Some i) (timers s)"

text \<open>
  A state the component reaches (mounted, loaded with empty collections, 600 ms later) and
  a burst of two mutations 100 ms and 499 ms before the next one.
\<close>

definition sample_ready_client :: client where
  "sample_ready_client =
     run [Mount, LoadDone \<lparr>fetched_jobs = Some [], fetched_payments = Some []\<rparr>, Tick 600]
       initial_client"

definition sample_burst :: "(mutation \<times> nat) list" where
  "sample_burst =
     [((\<lambda>js. sample_job # js, \<lambda>ps. ps), 100),
      ((\<lambda>js. [], \<lambda>ps. ps), 499)]"

section \<open>Base64 and cookie parsing\<close>

lemma b64_alphabet_length: "length b64_alphabet = 64"
  by (simp add: b64_alphabet_def js_def)

lemma b64_alphabet_distinct: "distinct b64_alphabet"
  by (simp add: b64_alphabet_def js_def)

lemma b64_char_inj: "i < 64 \<Longrightarrow> j < 64 \<Longrightarrow> b64_char i = b64_char j \<Longrightarrow> i = j"
  unfolding b64_char_def
  using nth_eq_iff_index_eq [OF b64_alphabet_distinct, of i j] b64_alphabet_length by simp

lemma b64_char_in_alphabet: "i < 64 \<Longrightarrow> b64_char i \<in> set b64_alphabet"
  unfolding b64_char_def using b64_alphabet_length by simp

lemma b64_pad_not_in_alphabet: "b64_pad \<notin> set b64_alphabet"
  by (simp add: b64_alphabet_def b64_pad_def js_def)

lemma b64_char_not_pad: "i < 64 \<Longrightarrow> b64_char i \<noteq> b64_pad"
  using b64_char_in_alphabet b64_pad_not_in_alphabet by metis

lemma b64_char_eqD: "b64_char i = b64_char j \<Longrightarrow> i < 64 \<Longrightarrow> j < 64 \<Longrightarrow> i = j"
  by (rule b64_char_inj)

lemma sextet1: "(a::nat) < 256 \<Longrightarrow> a div 4 < 64"
  by simp

lemma sextet2_last: "((a::nat) mod 4) * 16 < 64"
  by simp

lemma sextet2: "(b::nat) < 256 \<Longrightarrow> ((a::nat) mod 4) * 16 + b div 16 < 64"
  by arith

lemma sextet3_last: "((b::nat) mod 16) * 4 < 64"
  by simp

lemma sextet3: "(c::nat) < 256 \<Longrightarrow> ((b::nat) mod 16) * 4 + c div 64 < 64"
  by arith

lemma sextet4: "(c::nat) mod 64 < 64"
  by simp

lemma recompose: "(x::nat) div k = y div k \<Longrightarrow> x mod k = y mod k \<Longrightarrow> x = y"
  by (metis div_mult_mod_eq)

lemma group1_inj:
  fixes a a' :: nat
  assumes "a div 4 = a' div 4" "(a mod 4) * 16 = (a' mod 4) * 16"
  shows "a = a'"
proof -
  have "a mod 4 = a' mod 4" using assms(2) by simp
  with assms(1) show ?thesis by (rule recompose)
qed

lemma split_sextet:
  fixes m x k :: nat
  assumes "x < k" "x' < k" "m * k + x = m' * k + x'"
  shows "m = m' \<and> x = x'"
proof -
  have "(m * k + x) div k = m" "(m' * k + x') div k = m'" using assms(1,2) by simp_all
  then have m: "m = m'" using assms(3) by simp
  then show ?thesis using assms(3) by simp
qed

lemma group2_inj:
  fixes a a' b b' :: nat
  assumes "b < 256" "b' < 256"
    "a div 4 = a' div 4" "(a mod 4) * 16 + b div 16 = (a' mod 4) * 16 + b' div 16"
    "(b mod 16) * 4 = (b' mod 16) * 4"
  shows "a = a' \<and> b = b'"
proof -
  have "b div 16 < 16" "b' div 16 < 16" using assms(1,2) by simp_all
  from split_sextet [OF this assms(4)] have am: "a mod 4 = a' mod 4" and bd: "b div 16 = b' div 16"
    by simp_all
  have bm: "b mod 16 = b' mod 16" using assms(5) by simp
  show ?thesis using recompose [OF assms(3) am] recompose [OF bd bm] by simp
qed

lemma group3_inj:
  fixes a a' b b' c c' :: nat
  assumes "b < 256" "b' < 256" "c < 256" "c' < 256"
    "a div 4 = a' div 4" "(a mod 4) * 16 + b div 16 = (a' mod 4) * 16 + b' div 16"
    "(b mod 16) * 4 + c div 64 = (b' mod 16) * 4 + c' div 64" "c mod 64 = c' mod 64"
  shows "a = a' \<and> b = b' \<and> c = c'"
proof -
  have "b div 16 < 16" "b' div 16 < 16" using assms(1,2) by simp_all
  from split_sextet [OF this assms(6)] have am: "a mod 4 = a' mod 4" and bd: "b div 16 = b' div 16"
    by simp_all
  have "c div 64 < 4" "c' div 64 < 4" using assms(3,4) by simp_all
  from split_sextet [OF this assms(7)] have bm: "b mod 16 = b' mod 16" and cd: "c div 64 = c' div 64"
    by simp_all
  show ?thesis using recompose [OF assms(5) am] recompose [OF bd bm] recompose [OF cd assms(8)] by simp
qed

lemma b64_encode_Nil_iff: "b64_encode xs = [] \<longleftrightarrow> xs = []"
  by (cases xs rule: b64_encode.cases) simp_all

lemma b64_encode_inj:
  "\<forall>x \<in> set xs. x < 256 \<Longrightarrow> \<forall>y \<in> set ys. y < 256 \<Longrightarrow> b64_encode xs = b64_encode ys \<Longrightarrow> xs = ys"
proof (induction xs arbitrary: ys rule: b64_encode.induct)
  case 1
  then have "b64_encode ys = []" by simp
  then show ?case by (simp add: b64_encode_Nil_iff)
next
  case (2 a)
  show ?case
  proof (cases ys rule: b64_encode.cases)
    case 1
    with 2 show ?thesis by simp
  next
    case (2 a')
    from 2 "2.prems" have bnd: "a < 256" "a' < 256" by simp_all
    from 2 "2.prems" have eqs: "b64_char (a div 4) = b64_char (a' div 4)"
      "b64_char ((a mod 4) * 16) = b64_char ((a' mod 4) * 16)" by simp_all
    have "a div 4 = a' div 4"
      by (rule b64_char_eqD [OF eqs(1) sextet1 sextet1]) (rule bnd)+
    moreover have "(a mod 4) * 16 = (a' mod 4) * 16"
      by (rule b64_char_eqD [OF eqs(2) sextet2_last sextet2_last])
    ultimately have "a = a'" by (rule group1_inj)
    with 2 show ?thesis by simp
  next
    case (3 a' b')
    with "2.prems" have "b64_char ((b' mod 16) * 4) = b64_pad" by simp
    then show ?thesis using b64_char_not_pad [OF sextet3_last] by simp
  next
    case (4 a' b' c' rest)
    with "2.prems" have "c' < 256" "b64_char ((b' mod 16) * 4 + c' div 64) = b64_pad" by simp_all
    then show ?thesis using b64_char_not_pad [OF sextet3] by simp
  qed
next
  case (3 a b)
  show ?case
  proof (cases ys rule: b64_encode.cases)
    case 1
    with 3 show ?thesis by simp
  next
    case (2 a')
    with "3.prems" have "b64_char ((b mod 16) * 4) = b64_pad" by simp
    then show ?thesis using b64_char_not_pad [OF sextet3_last] by simp
  next
    case (3 a' b')
    from 3 "3.prems" have bnd: "a < 256" "b < 256" "a' < 256" "b' < 256" by simp_all
    from 3 "3.prems" have eqs: "b64_char (a div 4) = b64_char (a' div 4)"
      "b64_char ((a mod 4) * 16 + b div 16) = b64_char ((a' mod 4) * 16 + b' div 16)"
      "b64_char ((b mod 16) * 4) = b64_char ((b' mod 16) * 4)" by simp_all
    have "a div 4 = a' div 4"
      by (rule b64_char_eqD [OF eqs(1) sextet1 sextet1]) (rule bnd)+
    moreover have "(a mod 4) * 16 + b div 16 = (a' mod 4) * 16 + b' div 16"
      by (rule b64_char_eqD [OF eqs(2) sextet2 sextet2]) (rule bnd)+
    moreover have "(b mod 16) * 4 = (b' mod 16) * 4"
      by (rule b64_char_eqD [OF eqs(3) sextet3_last sextet3_last])
    ultimately have "a = a' \<and> b = b'" using bnd by (intro group2_inj)
    with 3 show ?thesis by simp
  next
    case (4 a' b' c' rest)
    with "3.prems" have "b64_char (c' mod 64) = b64_pad" by simp
    then show ?thesis using b64_char_not_pad [OF sextet4] by simp
  qed
next
  case (4 a b c rest)
  from "4.prems" have bnd: "a < 256" "b < 256" "c < 256" by simp_all
  show ?case
  proof (cases ys rule: b64_encode.cases)
    case 1
    with 4 show ?thesis by simp
  next
    case (2 a')
    with "4.prems" have "b64_char ((b mod 16) * 4 + c div 64) = b64_pad" by simp
    then show ?thesis using b64_char_not_pad [OF sextet3 [OF bnd(3)]] by simp
  next
    case (3 a' b')
    with "4.prems" have "b64_char (c mod 64) = b64_pad" by simp
    then show ?thesis using b64_char_not_pad [OF sextet4] by simp
  next
    case (4 a' b' c' rest')
    from 4 "4.prems" have bnd': "a' < 256" "b' < 256" "c' < 256" "\<forall>y \<in> set rest'. y < 256" by simp_all
    from 4 "4.prems" have eqs: "b64_char (a div 4) = b64_char (a' div 4)"
      "b64_char ((a mod 4) * 16 + b div 16) = b64_char ((a' mod 4) * 16 + b' div 16)"
      "b64_char ((b mod 16) * 4 + c div 64) = b64_char ((b' mod 16) * 4 + c' div 64)"
      "b64_char (c mod 64) = b64_char (c' mod 64)"
      "b64_encode rest = b64_encode rest'" by simp_all
    have "a div 4 = a' div 4"
      by (rule b64_char_eqD [OF eqs(1) sextet1 sextet1]) (rule bnd bnd')+
    moreover have "(a mod 4) * 16 + b div 16 = (a' mod 4) * 16 + b' div 16"
      by (rule b64_char_eqD [OF eqs(2) sextet2 sextet2]) (rule bnd bnd')+
    moreover have "(b mod 16) * 4 + c div 64 = (b' mod 16) * 4 + c' div 64"
      by (rule b64_char_eqD [OF eqs(3) sextet3 sextet3]) (rule bnd bnd')+
    moreover have "c mod 64 = c' mod 64"
      by (rule b64_char_eqD [OF eqs(4) sextet4 sextet4])
    ultimately have "a = a' \<and> b = b' \<and> c = c'" using bnd bnd' by (intro group3_inj)
    moreover have "rest = rest'" using "4.IH" [OF _ bnd'(4) eqs(5)] "4.prems"(1) by simp
    ultimately show ?thesis using 4 by simp
  qed
qed

lemma btoa_inj: "btoa s = Some t \<Longrightarrow> btoa s' = Some t \<Longrightarrow> s = s'"
proof -
  assume a: "btoa s = Some t" "btoa s' = Some t"
  then have le: "\<forall>c \<in> set s. c \<le> 255" "\<forall>c \<in> set s'. c \<le> 255"
    by (auto simp: btoa_def split: if_splits)
  have bs: "\<forall>x \<in> set (map unat s). x < 256" "\<forall>x \<in> set (map unat s'). x < 256"
    using le by (auto simp: word_le_nat_alt)
  from a have "b64_encode (map unat s) = b64_encode (map unat s')"
    by (auto simp: btoa_def split: if_splits)
  then have "map unat s = map unat s'" using bs by (intro b64_encode_inj)
  then show "s = s'" by simp
qed

lemma b64_encode_chars:
  "\<forall>x \<in> set xs. x < 256 \<Longrightarrow> set (b64_encode xs) \<subseteq> insert b64_pad (set b64_alphabet)"
proof (induction xs rule: b64_encode.induct)
  case 1
  then show ?case by simp
next
  case (2 a)
  then show ?case by (simp add: b64_char_in_alphabet sextet1)
next
  case (3 a b)
  then show ?case by (simp add: b64_char_in_alphabet sextet1 sextet2)
next
  case (4 a b c rest)
  then show ?case by (auto simp: b64_char_in_alphabet sextet1 sextet2 sextet3)
qed

lemma btoa_chars: "btoa s = Some t \<Longrightarrow> set t \<subseteq> insert b64_pad (set b64_alphabet)"
proof -
  assume a: "btoa s = Some t"
  then have "\<forall>x \<in> set (map unat s). x < 256"
    by (auto simp: btoa_def word_le_nat_alt not_less split: if_splits)
  then have "set (b64_encode (map unat s)) \<subseteq> insert b64_pad (set b64_alphabet)"
    by (rule b64_encode_chars)
  with a show ?thesis by (auto simp: btoa_def split: if_splits)
qed

lemma btoa_nonempty: "btoa s = Some t \<Longrightarrow> s \<noteq> [] \<Longrightarrow> t \<noteq> []"
  by (auto simp: btoa_def b64_encode_Nil_iff split: if_splits)

lemma split_on_not_Nil: "split_on sep s \<noteq> []"
  by (induction s) (auto split: list.splits)

lemma split_on_no_sep: "sep \<notin> set s \<Longrightarrow> split_on sep s = [s]"
  by (induction s) auto

lemma split_on_first: "sep \<notin> set n \<Longrightarrow> split_on sep (n @ sep # t) = n # split_on sep t"
  by (induction n) auto

lemma join_Cons_Cons: "join sep ((c # p) # ps) = c # join sep (p # ps)"
  by (cases ps) simp_all

lemma join_split_on: "join [sep] (split_on sep s) = s"
proof (induction s)
  case Nil
  then show ?case by simp
next
  case (Cons c cs)
  show ?case
  proof (cases "c = sep")
    case True
    obtain p ps where "split_on sep cs = p # ps"
      using split_on_not_Nil [of sep cs] by (cases "split_on sep cs") auto
    with Cons True show ?thesis by simp
  next
    case False
    obtain p ps where "split_on sep cs = p # ps"
      using split_on_not_Nil [of sep cs] by (cases "split_on sep cs") auto
    with Cons False show ?thesis by (simp add: join_Cons_Cons)
  qed
qed

lemma dropWhile_hd: "s = [] \<or> \<not> P (hd s) \<Longrightarrow> dropWhile P s = s"
  by (cases s) auto

lemma trim_id: "s \<noteq> [] \<Longrightarrow> \<not> is_ws (hd s) \<Longrightarrow> \<not> is_ws (last s) \<Longrightarrow> trim s = s"
  by (simp add: trim_def dropWhile_hd hd_rev)

lemma parseCookies_single:
  assumes "n \<noteq> []" "0x3D \<notin> set n" "0x3B \<notin> set n" "0x3B \<notin> set v"
    "\<not> is_ws (hd n)" "\<not> is_ws (last (n @ 0x3D # v))"
  shows "parseCookies (n @ 0x3D # v) = [n \<mapsto> v]"
proof -
  have "split_on 0x3B (n @ 0x3D # v) = [n @ 0x3D # v]"
    using assms(3,4) by (intro split_on_no_sep) simp
  moreover have "trim (n @ 0x3D # v) = n @ 0x3D # v"
    using assms(1,5,6) by (intro trim_id) simp_all
  moreover have "split_on 0x3D (n @ 0x3D # v) = n # split_on 0x3D v"
    using assms(2) by (rule split_on_first)
  ultimately show ?thesis
    using assms(1) by (simp add: parseCookies_def parseCookies_step_def join_split_on)
qed

lemma b64_chars_plain_all:
  "\<forall>c \<in> insert b64_pad (set b64_alphabet). c \<noteq> 0x3B \<and> \<not> is_ws c"
  by (simp add: b64_alphabet_def b64_pad_def js_def is_ws_def)

lemma b64_chars_plain:
  "c \<in> insert b64_pad (set b64_alphabet) \<Longrightarrow> c \<noteq> 0x3B \<and> \<not> is_ws c"
  using b64_chars_plain_all by blast

lemma COOKIE_NAME_plain:
  "COOKIE_NAME \<noteq> []" "0x3D \<notin> set COOKIE_NAME" "0x3B \<notin> set COOKIE_NAME" "\<not> is_ws (hd COOKIE_NAME)"
  by (simp_all add: COOKIE_NAME_def js_def is_ws_def)

lemma parseCookies_token:
  assumes "set tok \<subseteq> insert b64_pad (set b64_alphabet)"
  shows "parseCookies (COOKIE_NAME @ js ''='' @ tok) = [COOKIE_NAME \<mapsto> tok]"
proof -
  have eq: "COOKIE_NAME @ js ''='' @ tok = COOKIE_NAME @ 0x3D # tok" by (simp add: js_def)
  have "0x3B \<notin> set tok" using assms b64_chars_plain by blast
  moreover have "\<not> is_ws (last (COOKIE_NAME @ 0x3D # tok))"
  proof (cases "tok = []")
    case True
    then show ?thesis by (simp add: is_ws_def)
  next
    case False
    then have "last tok \<in> set tok" by (rule last_in_set)
    then have "last tok \<in> insert b64_pad (set b64_alphabet)" using assms by (rule subsetD [rotated])
    then have "\<not> is_ws (last tok)" using b64_chars_plain by blast
    with False show ?thesis by simp
  qed
  ultimately show ?thesis unfolding eq using COOKIE_NAME_plain by (intro parseCookies_single)
qed

lemmas sample_defs = sample_request_def sample_env_def sample_platform_def sample_stringify_def
  sample_parse_def sample_upstream_def

lemmas eval_defs = checkAuth_def parseCookies_def parseCookies_step_def trim_def is_ws_def
  COOKIE_NAME_def ToString_def btoa_def js_def b64_char_def b64_alphabet_def b64_pad_def
  startsWith_def

lemma sample_authenticated: "checkAuth (sample_request m p (Some ''theme=dark; subtrack_auth=cHc='')) sample_env"
  by (simp add: sample_defs eval_defs)

lemma sample_unauthenticated: "\<not> checkAuth (sample_request m p None) sample_env"
  by (simp add: sample_defs eval_defs)

section \<open>The data API\<close>

text \<open>
  C6. A request to \<open>/api/data\<close> without a valid credential, whatever its method, is
  answered with status 401 and the body \<open>{error: 'Unauthorized'}\<close>, by the handler and
  by the router that dispatches to it, and the environment (so the stored dataset) is the
  one before the request.
\<close>

theorem unauthenticated_api_data_401:
  assumes "\<not> checkAuth request e" and "req_pathname request = js ''/api/data''"
  shows "handleAPI J request e =
           (Inr \<lparr>status = 401, headers = [],
                 body = Text (JSON_stringify J (JObj [(js ''error'', JStr (js ''Unauthorized''))]))\<rparr>, e)
         \<and> worker_fetch J up request e =
           (Inr \<lparr>status = 401, headers = [],
                 body = Text (JSON_stringify J (JObj [(js ''error'', JStr (js ''Unauthorized''))]))\<rparr>, e, [])"
proof -
  have "startsWith (req_pathname request) (js ''/api/'')"
    using assms(2) by (simp add: startsWith_def js_def)
  then show ?thesis using assms(1) by (simp add: handleAPI_def worker_fetch_def)
qed

theorem unauthenticated_api_data_401_witness:
  "\<not> checkAuth (sample_request ''POST'' ''/api/data'' None) sample_env
   \<and> req_pathname (sample_request ''POST'' ''/api/data'' None) = js ''/api/data''
   \<and> handleAPI sample_platform (sample_request ''POST'' ''/api/data'' None) sample_env =
       (Inr \<lparr>status = 401, headers = [], body = Text (js ''{\"error\":\"Unauthorized\"}'')\<rparr>, sample_env)
   \<and> worker_fetch sample_platform sample_upstream (sample_request ''POST'' ''/api/data'' None) sample_env =
       (Inr \<lparr>status = 401, headers = [], body = Text (js ''{\"error\":\"Unauthorized\"}'')\<rparr>, sample_env, [])"
proof -
  have h1: "\<not> checkAuth (sample_request ''POST'' ''/api/data'' None) sample_env"
    by (rule sample_unauthenticated)
  have h2: "req_pathname (sample_request ''POST'' ''/api/data'' None) = js ''/api/data''"
    by (simp add: sample_request_def)
  have s: "JSON_stringify sample_platform (JObj [(js ''error'', JStr (js ''Unauthorized''))])
             = js ''{\"error\":\"Unauthorized\"}''"
    by (simp add: sample_platform_def sample_stringify_def empty_dataset_def js_def)
  show ?thesis
    using h1 h2 unauthenticated_api_data_401 [OF h1 h2, of sample_platform sample_upstream]
    by (simp add: s)
qed

lemma api_data_under_prefix: "startsWith (js ''/api/data'') (js ''/api/'')"
  by (simp add: startsWith_def js_def)

lemma worker_fetch_api:
  "startsWith (req_pathname request) (js ''/api/'') \<Longrightarrow>
   worker_fetch J up request e = (fst (handleAPI J request e), snd (handleAPI J request e), [])"
  by (simp add: worker_fetch_def split: prod.splits)




text \<open>
  C10. An authenticated request under the prefix \<open>/api/\<close> whose path is not
  \<open>/api/data\<close>, or whose method on \<open>/api/data\<close> is neither GET nor POST, is answered
  with status 404 and the plain text \<open>Not found\<close>, and the store is untouched.
\<close>

theorem api_other_route_not_found:
  assumes "checkAuth request e"
    and "startsWith (req_pathname request) (js ''/api/'')"
    and "req_pathname request \<noteq> js ''/api/data''
         \<or> (req_method request \<noteq> js ''GET'' \<and> req_method request \<noteq> js ''POST'')"
  shows "handleAPI J request e =
           (Inr \<lparr>status = 404, headers = [], body = Text (js ''Not found'')\<rparr>, e)
         \<and> worker_fetch J up request e =
           (Inr \<lparr>status = 404, headers = [], body = Text (js ''Not found'')\<rparr>, e, [])"
proof -
  have h: "handleAPI J request e =
           (Inr \<lparr>status = 404, headers = [], body = Text (js ''Not found'')\<rparr>, e)"
    using assms(1,3) by (auto simp: handleAPI_def)
  from worker_fetch_api [OF assms(2)] h show ?thesis by simp
qed

theorem api_other_route_not_found_witness:
  "checkAuth (sample_request ''DELETE'' ''/api/data'' (Some ''theme=dark; subtrack_auth=cHc='')) sample_env
   \<and> startsWith (req_pathname (sample_request ''DELETE'' ''/api/data'' (Some ''theme=dark; subtrack_auth=cHc='')))
        (js ''/api/'')
   \<and> req_method (sample_request ''DELETE'' ''/api/data'' (Some ''theme=dark; subtrack_auth=cHc='')) \<noteq> js ''GET''
   \<and> req_method (sample_request ''DELETE'' ''/api/data'' (Some ''theme=dark; subtrack_auth=cHc='')) \<noteq> js ''POST''
   \<and> handleAPI sample_platform
         (sample_request ''DELETE'' ''/api/data'' (Some ''theme=dark; subtrack_auth=cHc='')) sample_env =
       (Inr \<lparr>status = 404, headers = [], body = Text (js ''Not found'')\<rparr>, sample_env)
   \<and> checkAuth (sample_request ''GET'' ''/api/jobs'' (Some ''theme=dark; subtrack_auth=cHc='')) sample_env
   \<and> startsWith (req_pathname (sample_request ''GET'' ''/api/jobs'' (Some ''theme=dark; subtrack_auth=cHc='')))
        (js ''/api/'')
   \<and> req_pathname (sample_request ''GET'' ''/api/jobs'' (Some ''theme=dark; subtrack_auth=cHc='')) \<noteq> js ''/api/data''
   \<and> handleAPI sample_platform
         (sample_request ''GET'' ''/api/jobs'' (Some ''theme=dark; subtrack_auth=cHc='')) sample_env =
       (Inr \<lparr>status = 404, headers = [], body = Text (js ''Not found'')\<rparr>, sample_env)"
proof -
  let ?r = "sample_request ''DELETE'' ''/api/data'' (Some ''theme=dark; subtrack_auth=cHc='')"
  let ?q = "sample_request ''GET'' ''/api/jobs'' (Some ''theme=dark; subtrack_auth=cHc='')"
  have r1: "checkAuth ?r sample_env" by (rule sample_authenticated)
  have r2: "startsWith (req_pathname ?r) (js ''/api/'')"
    by (simp add: sample_request_def startsWith_def js_def)
  have r3: "req_method ?r \<noteq> js ''GET'' \<and> req_method ?r \<noteq> js ''POST''"
    by (simp add: sample_request_def js_def)
  have q1: "checkAuth ?q sample_env" by (rule sample_authenticated)
  have q2: "startsWith (req_pathname ?q) (js ''/api/'')"
    by (simp add: sample_request_def startsWith_def js_def)
  have q3: "req_pathname ?q \<noteq> js ''/api/data''"
    by (simp add: sample_request_def js_def)
  show ?thesis
    using r1 r2 r3 q1 q2 q3
      api_other_route_not_found [OF r1 r2 disjI2 [OF r3], of sample_platform sample_upstream]
      api_other_route_not_found [OF q1 q2 disjI1 [OF q3], of sample_platform sample_upstream]
    by simp
qed

text \<open>
  C5. An authenticated POST of \<open>/api/data\<close> whose body \<^verbatim>\<open>request.json()\<close> rejects is
  answered with status 400 and the exception's message, and the store is untouched.
\<close>

theorem put_dataset_malformed_body:
  assumes "checkAuth request e"
    and "req_pathname request = js ''/api/data''"
    and "req_method request = js ''POST''"
    and "req_json request = Inl message"
  shows "handleAPI J request e =
           (Inr \<lparr>status = 400, headers = [],
                 body = Text (JSON_stringify J (JObj [(js ''error'', JStr message)]))\<rparr>, e)
         \<and> worker_fetch J up request e =
           (Inr \<lparr>status = 400, headers = [],
                 body = Text (JSON_stringify J (JObj [(js ''error'', JStr message)]))\<rparr>, e, [])"
proof -
  have ne: "js ''POST'' \<noteq> js ''GET''" by (simp add: js_def)
  have h: "handleAPI J request e =
           (Inr \<lparr>status = 400, headers = [],
                 body = Text (JSON_stringify J (JObj [(js ''error'', JStr message)]))\<rparr>, e)"
    using assms ne by (simp add: handleAPI_def)
  have "startsWith (req_pathname request) (js ''/api/'')"
    using assms(2) api_data_under_prefix by simp
  from worker_fetch_api [OF this] h show ?thesis by simp
qed

theorem put_dataset_malformed_body_witness:
  "checkAuth (sample_request ''POST'' ''/api/data'' (Some ''theme=dark; subtrack_auth=cHc='')) sample_env
   \<and> req_json (sample_request ''POST'' ''/api/data'' (Some ''theme=dark; subtrack_auth=cHc=''))
       = Inl (js ''Unexpected end of JSON input'')
   \<and> handleAPI sample_platform
         (sample_request ''POST'' ''/api/data'' (Some ''theme=dark; subtrack_auth=cHc='')) sample_env =
       (Inr \<lparr>status = 400, headers = [],
             body = Text (JSON_stringify sample_platform
                            (JObj [(js ''error'', JStr (js ''Unexpected end of JSON input''))]))\<rparr>,
        sample_env)"
proof -
  let ?r = "sample_request ''POST'' ''/api/data'' (Some ''theme=dark; subtrack_auth=cHc='')"
  have h1: "checkAuth ?r sample_env" by (rule sample_authenticated)
  have h2: "req_pathname ?r = js ''/api/data''" by (simp add: sample_request_def)
  have h3: "req_method ?r = js ''POST''" by (simp add: sample_request_def)
  have h4: "req_json ?r = Inl (js ''Unexpected end of JSON input'')" by (simp add: sample_request_def)
  show ?thesis
    using h1 h4 put_dataset_malformed_body [OF h1 h2 h3 h4, of sample_platform sample_upstream]
    by simp
qed





section \<open>Session credentials\<close>

lemma checkAuth_iff:
  "checkAuth request e \<longleftrightarrow>
     (\<exists>t. parseCookies (case req_cookie request of None \<Rightarrow> [] | Some h \<Rightarrow> h) COOKIE_NAME = Some t
          \<and> t \<noteq> [] \<and> btoa (ToString (PASSWORD e)) = Some t)"
  by (auto simp: checkAuth_def split: option.splits)

lemma checkAuth_token:
  assumes "set tok \<subseteq> insert b64_pad (set b64_alphabet)"
  shows "checkAuth (request\<lparr>req_cookie := Some (COOKIE_NAME @ js ''='' @ tok)\<rparr>) e
           \<longleftrightarrow> tok \<noteq> [] \<and> btoa (ToString (PASSWORD e)) = Some tok"
  by (auto simp: checkAuth_iff parseCookies_token [OF assms])

lemma checkAuth_no_cookie_header: "req_cookie request = None \<Longrightarrow> \<not> checkAuth request e"
  by (simp add: checkAuth_iff parseCookies_def)

lemma checkAuth_no_auth_cookie:
  "parseCookies (case req_cookie request of None \<Rightarrow> [] | Some h \<Rightarrow> h) COOKIE_NAME = None
   \<Longrightarrow> \<not> checkAuth request e"
  by (simp add: checkAuth_iff)

lemma checkAuth_btoa_throws: "btoa (ToString (PASSWORD e)) = None \<Longrightarrow> \<not> checkAuth request e"
  by (simp add: checkAuth_iff)

lemma handleLogin_absent_secret:
  "PASSWORD e = None \<Longrightarrow> req_form_password request = Inr p
   \<Longrightarrow> handleLogin J request e = serveLoginPage (js ''Invalid password'')"
  by (simp add: handleLogin_def split: form_entry.splits)

lemma handleLogin_unencodable_secret:
  "PASSWORD e = Some S \<Longrightarrow> btoa S = None \<Longrightarrow> req_form_password request = Inr (TextEntry S)
   \<Longrightarrow> handleLogin J request e
         = serveLoginPage (js ''Login failed: '' @ InvalidCharacterError_message J)"
  by (simp add: handleLogin_def ToString_def)

text \<open>
  C4, as the code has it. With the empty string as the configured secret, a login with the
  empty password is accepted and issues the empty token, which \<open>checkAuth\<close> rejects:
  its guard \<^verbatim>\<open>if (!authToken) return false\<close> refuses an empty cookie value before any
  comparison.
\<close>

theorem empty_secret_token_rejected:
  "handleLogin sample_platform
     ((sample_request ''POST'' ''/login'' None)\<lparr>req_form_password := Inr (TextEntry [])\<rparr>)
     \<lparr>PASSWORD = Some [], SUBTRACK_DATA = Map.empty\<rparr> =
     \<lparr>status = 302,
      headers = [(js ''location'', js ''/''),
                 (js ''set-cookie'',
                  js ''subtrack_auth=; Path=/; HttpOnly; Secure; SameSite=Strict; Max-Age=2592000'')],
      body = NoBody\<rparr>
   \<and> btoa [] = Some []
   \<and> \<not> checkAuth (sample_request ''GET'' ''/'' (Some ''subtrack_auth=''))
         \<lparr>PASSWORD = Some [], SUBTRACK_DATA = Map.empty\<rparr>"
  by (simp add: handleLogin_def sample_defs eval_defs COOKIE_MAX_AGE_def)

text \<open>
  C4, amended to non-empty secrets. Let the configured secret \<open>S\<close> be non-empty. If
  \<^verbatim>\<open>btoa\<close> encodes \<open>S\<close> to \<open>token\<close>, a login with the password \<open>S\<close> redirects
  with the cookie \<open>subtrack_auth=token\<close>, and a request that presents this cookie passes
  \<open>checkAuth\<close>. A request that presents the token of any other secret \<open>S'\<close> fails
  \<open>checkAuth\<close>. And \<open>checkAuth\<close> holds of a request exactly when the value of its
  \<open>subtrack_auth\<close> cookie is the base64 encoding of \<open>S\<close>.
\<close>

theorem credential_issue_validate:
  assumes "PASSWORD e = Some S" and "S \<noteq> []"
  shows "(\<forall>token. btoa S = Some token \<longrightarrow>
            handleLogin J (request\<lparr>req_form_password := Inr (TextEntry S)\<rparr>) e =
              \<lparr>status = 302,
               headers = [(js ''location'', js ''/''),
                          (js ''set-cookie'',
                           COOKIE_NAME @ js ''='' @ token
                             @ js ''; Path=/; HttpOnly; Secure; SameSite=Strict; Max-Age=''
                             @ digits COOKIE_MAX_AGE)],
               body = NoBody\<rparr>
            \<and> checkAuth (request\<lparr>req_cookie := Some (COOKIE_NAME @ js ''='' @ token)\<rparr>) e)
         \<and> (\<forall>S' token'. S' \<noteq> S \<and> btoa S' = Some token' \<longrightarrow>
               \<not> checkAuth (request\<lparr>req_cookie := Some (COOKIE_NAME @ js ''='' @ token')\<rparr>) e)
         \<and> (\<forall>r. checkAuth r e \<longleftrightarrow>
               (\<exists>token. btoa S = Some token
                  \<and> parseCookies (case req_cookie r of None \<Rightarrow> [] | Some h \<Rightarrow> h) COOKIE_NAME
                      = Some token))"
proof (intro conjI allI impI)
  fix token
  assume t: "btoa S = Some token"
  show "handleLogin J (request\<lparr>req_form_password := Inr (TextEntry S)\<rparr>) e =
              \<lparr>status = 302,
               headers = [(js ''location'', js ''/''),
                          (js ''set-cookie'',
                           COOKIE_NAME @ js ''='' @ token
                             @ js ''; Path=/; HttpOnly; Secure; SameSite=Strict; Max-Age=''
                             @ digits COOKIE_MAX_AGE)],
               body = NoBody\<rparr>"
    using assms(1) t by (simp add: handleLogin_def ToString_def)
  have "token \<noteq> []" using t assms(2) by (rule btoa_nonempty)
  then show "checkAuth (request\<lparr>req_cookie := Some (COOKIE_NAME @ js ''='' @ token)\<rparr>) e"
    using t assms(1) by (simp add: checkAuth_token [OF btoa_chars [OF t]] ToString_def)
next
  fix S' token'
  assume a: "S' \<noteq> S \<and> btoa S' = Some token'"
  then have t': "btoa S' = Some token'" by simp
  have "btoa S \<noteq> Some token'"
  proof
    assume "btoa S = Some token'"
    from btoa_inj [OF this t'] a show False by simp
  qed
  then show "\<not> checkAuth (request\<lparr>req_cookie := Some (COOKIE_NAME @ js ''='' @ token')\<rparr>) e"
    using assms(1) by (simp add: checkAuth_token [OF btoa_chars [OF t']] ToString_def)
next
  fix r
  show "checkAuth r e \<longleftrightarrow>
               (\<exists>token. btoa S = Some token
                  \<and> parseCookies (case req_cookie r of None \<Rightarrow> [] | Some h \<Rightarrow> h) COOKIE_NAME
                      = Some token)"
    using assms btoa_nonempty [of S] by (auto simp: checkAuth_iff ToString_def)
qed

theorem credential_issue_validate_witness:
  "PASSWORD sample_env = Some (js ''pw'') \<and> js ''pw'' \<noteq> []
   \<and> btoa (js ''pw'') = Some (js ''cHc='')
   \<and> handleLogin sample_platform
        ((sample_request ''POST'' ''/login'' None)\<lparr>req_form_password := Inr (TextEntry (js ''pw''))\<rparr>)
        sample_env =
       \<lparr>status = 302,
        headers = [(js ''location'', js ''/''),
                   (js ''set-cookie'',
                    js ''subtrack_auth=cHc=; Path=/; HttpOnly; Secure; SameSite=Strict; Max-Age=2592000'')],
        body = NoBody\<rparr>
   \<and> checkAuth ((sample_request ''POST'' ''/login'' None)\<lparr>req_cookie := Some (js ''subtrack_auth=cHc='')\<rparr>)
        sample_env
   \<and> js ''pw2'' \<noteq> js ''pw'' \<and> btoa (js ''pw2'') = Some (js ''cHcy'')
   \<and> \<not> checkAuth ((sample_request ''POST'' ''/login'' None)\<lparr>req_cookie := Some (js ''subtrack_auth=cHcy'')\<rparr>)
        sample_env"
proof -
  let ?r = "sample_request ''POST'' ''/login'' None"
  have h1: "PASSWORD sample_env = Some (js ''pw'')" by (simp add: sample_env_def)
  have h2: "js ''pw'' \<noteq> []" by (simp add: js_def)
  have t: "btoa (js ''pw'') = Some (js ''cHc='')"
    by (simp add: btoa_def js_def b64_char_def b64_alphabet_def b64_pad_def)
  have n: "js ''pw2'' \<noteq> js ''pw''" by (simp add: js_def)
  have t': "btoa (js ''pw2'') = Some (js ''cHcy'')"
    by (simp add: btoa_def js_def b64_char_def b64_alphabet_def b64_pad_def)
  note inst = credential_issue_validate [OF h1 h2, of sample_platform ?r]
  from inst t have issue:
    "handleLogin sample_platform (?r\<lparr>req_form_password := Inr (TextEntry (js ''pw''))\<rparr>) sample_env =
       \<lparr>status = 302,
        headers = [(js ''location'', js ''/''),
                   (js ''set-cookie'',
                    COOKIE_NAME @ js ''='' @ js ''cHc=''
                      @ js ''; Path=/; HttpOnly; Secure; SameSite=Strict; Max-Age=''
                      @ digits COOKIE_MAX_AGE)],
        body = NoBody\<rparr>"
    and valid: "checkAuth (?r\<lparr>req_cookie := Some (COOKIE_NAME @ js ''='' @ js ''cHc='')\<rparr>) sample_env"
    by blast+
  from inst n t' have invalid:
    "\<not> checkAuth (?r\<lparr>req_cookie := Some (COOKIE_NAME @ js ''='' @ js ''cHcy'')\<rparr>) sample_env"
    by blast
  have c: "COOKIE_NAME @ js ''='' @ js ''cHc='' @ js ''; Path=/; HttpOnly; Secure; SameSite=Strict; Max-Age=''
             @ digits COOKIE_MAX_AGE
           = js ''subtrack_auth=cHc=; Path=/; HttpOnly; Secure; SameSite=Strict; Max-Age=2592000''"
    by (simp add: COOKIE_NAME_def COOKIE_MAX_AGE_def js_def)
  have c1: "COOKIE_NAME @ js ''='' @ js ''cHc='' = js ''subtrack_auth=cHc=''"
    and c2: "COOKIE_NAME @ js ''='' @ js ''cHcy'' = js ''subtrack_auth=cHcy''"
    by (simp_all add: COOKIE_NAME_def js_def)
  show ?thesis
    using h1 h2 t n t' issue valid invalid unfolding c c1 c2 by simp
qed

text \<open>
  C9, at the input where the code departs from it. With no secret configured,
  \<^verbatim>\<open>btoa(env.PASSWORD)\<close> encodes the string \<open>undefined\<close> instead of throwing, so a
  request whose cookie is \<open>subtrack_auth=dW5kZWZpbmVk\<close> passes \<open>checkAuth\<close>; the login
  handler, on the same environment, refuses the password \<open>undefined\<close>. The other cases
  of the claim hold: \<open>checkAuth_no_cookie_header\<close>, \<open>checkAuth_no_auth_cookie\<close> and
  \<open>checkAuth_btoa_throws\<close> above.
\<close>

theorem absent_secret_forged_token_accepted:
  "checkAuth (sample_request ''GET'' ''/api/data'' (Some ''subtrack_auth=dW5kZWZpbmVk''))
     \<lparr>PASSWORD = None, SUBTRACK_DATA = Map.empty\<rparr>
   \<and> handleLogin sample_platform
        ((sample_request ''POST'' ''/login'' None)\<lparr>req_form_password := Inr (TextEntry (js ''undefined''))\<rparr>)
        \<lparr>PASSWORD = None, SUBTRACK_DATA = Map.empty\<rparr>
       = serveLoginPage (js ''Invalid password'')"
  by (simp add: handleLogin_def sample_defs eval_defs)

section \<open>The static content proxy\<close>

lemma normalized_path_includes_dot:
  "includes_dot (if p = js ''/'' \<or> \<not> includes_dot p then js ''/index.html'' else p)"
  by (simp add: includes_dot_def js_def)

lemma proxy_single_fetch: "length (snd (proxyToGitHub J up request)) = 1"
proof -
  have d: "includes_dot (js ''/index.html'')" by (simp add: includes_dot_def js_def)
  show ?thesis
    by (simp add: proxyToGitHub_def Let_def d del: digits.simps split: fetch_outcome.splits sum.splits)
qed

lemma proxy_404_without_extension:
  assumes "\<not> includes_dot (req_pathname request)"
    and "up 0 \<lparr>fetch_url = GITHUB_ORIGIN @ GITHUB_PATH @ js ''/index.html'',
               fetch_headers =
                 [(js ''host'', js ''panpapadopoulos.github.io''),
                  (js ''user-agent'', js ''SubTrack-Pro-Worker''),
                  (js ''accept'',
                   (case req_accept request of
                      None \<Rightarrow> js ''*/*''
                    | Some a \<Rightarrow> if a = [] then js ''*/*'' else a))]\<rparr> = Answered r"
    and "status r = 404"
  shows "fst (proxyToGitHub J up request) =
           Inr \<lparr>status = 404, headers = [(js ''content-type'', js ''text/plain'')],
                body = Text (js ''Origin Error: '' @ digits 404 @ js '' for ''
                               @ GITHUB_ORIGIN @ GITHUB_PATH @ js ''/index.html'')\<rparr>"
proof -
  have d: "includes_dot (js ''/index.html'')" by (simp add: includes_dot_def js_def)
  show ?thesis
    using assms
    by (simp add: proxyToGitHub_def Let_def d ok_def new_Response_def null_body_status_def
        del: digits.simps)
qed

lemma proxy_not_modified_is_502:
  assumes "includes_dot (req_pathname request)" and "req_pathname request \<noteq> js ''/''"
    and "up 0 \<lparr>fetch_url = GITHUB_ORIGIN @ GITHUB_PATH @ req_pathname request,
               fetch_headers =
                 [(js ''host'', js ''panpapadopoulos.github.io''),
                  (js ''user-agent'', js ''SubTrack-Pro-Worker''),
                  (js ''accept'',
                   (case req_accept request of
                      None \<Rightarrow> js ''*/*''
                    | Some a \<Rightarrow> if a = [] then js ''*/*'' else a))]\<rparr> = Answered r"
    and "status r = 304"
  shows "fst (proxyToGitHub J up request) =
           Inr \<lparr>status = 502, headers = [],
                body = Text (js ''Worker Exception: '' @ Response_TypeError_message J)\<rparr>"
  using assms
  by (simp add: proxyToGitHub_def Let_def ok_def new_Response_def null_body_status_def
      del: digits.simps)

text \<open>
  C1, at the input where the code departs from it. For \<open>/dashboard\<close> the path is first
  normalised to \<open>/index.html\<close>; when the upstream answers that fetch with 404, the test
  \<^verbatim>\<open>!path.includes('.')\<close> that guards the retry reads the normalised path and fails,
  so the caller receives the diagnostic 404 and exactly one fetch is issued, although a
  second fetch of the index document would have been answered with 200.
  \<open>proxy_single_fetch\<close> shows that no request is ever retried.
\<close>

theorem proxy_dashboard_404_not_retried:
  "proxyToGitHub sample_platform sample_upstream
     (sample_request ''GET'' ''/dashboard'' (Some ''theme=dark; subtrack_auth=cHc='')) =
     (Inr \<lparr>status = 404, headers = [(js ''content-type'', js ''text/plain'')],
           body = Text (js ''Origin Error: 404 for https://panpapadopoulos.github.io/subtrack/index.html'')\<rparr>,
      [\<lparr>fetch_url = js ''https://panpapadopoulos.github.io/subtrack/index.html'',
        fetch_headers =
          [(js ''host'', js ''panpapadopoulos.github.io''),
           (js ''user-agent'', js ''SubTrack-Pro-Worker''),
           (js ''accept'', js ''*/*'')]\<rparr>])
   \<and> sample_upstream 1
        \<lparr>fetch_url = js ''https://panpapadopoulos.github.io/subtrack/index.html'',
         fetch_headers = [(js ''host'', js ''panpapadopoulos.github.io'')]\<rparr>
       = Answered \<lparr>status = 200, headers = [], body = Text (js ''index'')\<rparr>
   \<and> fst (worker_fetch sample_platform sample_upstream
             (sample_request ''GET'' ''/dashboard'' (Some ''theme=dark; subtrack_auth=cHc='')) sample_env) =
       Inr \<lparr>status = 404, headers = [(js ''content-type'', js ''text/plain'')],
            body = Text (js ''Origin Error: 404 for https://panpapadopoulos.github.io/subtrack/index.html'')\<rparr>"
proof -
  let ?r = "sample_request ''GET'' ''/dashboard'' (Some ''theme=dark; subtrack_auth=cHc='')"
  have p: "proxyToGitHub sample_platform sample_upstream ?r =
     (Inr \<lparr>status = 404, headers = [(js ''content-type'', js ''text/plain'')],
           body = Text (js ''Origin Error: 404 for https://panpapadopoulos.github.io/subtrack/index.html'')\<rparr>,
      [\<lparr>fetch_url = js ''https://panpapadopoulos.github.io/subtrack/index.html'',
        fetch_headers =
          [(js ''host'', js ''panpapadopoulos.github.io''),
           (js ''user-agent'', js ''SubTrack-Pro-Worker''),
           (js ''accept'', js ''*/*'')]\<rparr>])"
    by (simp add: proxyToGitHub_def Let_def sample_request_def sample_upstream_def includes_dot_def
        ok_def new_Response_def null_body_status_def GITHUB_ORIGIN_def GITHUB_PATH_def js_def)
  have a: "checkAuth ?r sample_env" by (rule sample_authenticated)
  have "req_pathname ?r = js ''/dashboard''" "req_method ?r = js ''GET''"
    by (simp_all add: sample_request_def)
  then have w: "worker_fetch sample_platform sample_upstream ?r sample_env =
      (fst (proxyToGitHub sample_platform sample_upstream ?r), sample_env,
       snd (proxyToGitHub sample_platform sample_upstream ?r))"
    using a by (simp add: worker_fetch_def startsWith_def js_def split: prod.splits)
  show ?thesis unfolding w p by (simp add: sample_upstream_def)
qed

section \<open>The client's saves\<close>

lemma run_Nil: "run [] s = s"
  by (simp add: run_def)

lemma run_Cons: "run (ev # evs) s = run evs (step ev s)"
  by (simp add: run_def)

lemma run_append: "run (evs @ evs') s = run evs' (run evs s)"
  by (simp add: run_def)

lemma clear_owned:
  "list_all (\<lambda>(j, deadline, payload). r = Some j) ts
   \<Longrightarrow> (case r of None \<Rightarrow> ts | Some i \<Rightarrow> filter (\<lambda>(j, deadline, payload). j \<noteq> i) ts) = []"
  by (induction ts) (auto split: option.splits)

lemma debouncedSave_owned:
  assumes "timers_owned s"
  shows "debouncedSave s =
           s\<lparr>timers := [(next_timer s, clock s + 500, working_copy s)],
             next_timer := next_timer s + 1,
             saveTimeoutRef := Some (next_timer s)\<rparr>"
proof -
  have "(case saveTimeoutRef s of None \<Rightarrow> timers s
         | Some i \<Rightarrow> filter (\<lambda>(j, deadline, payload). j \<noteq> i) (timers s)) = []"
    using assms unfolding timers_owned_def by (rule clear_owned)
  then show ?thesis
    by (cases "saveTimeoutRef s") (simp_all add: debouncedSave_def clearTimeout_def working_copy_def Let_def)
qed

lemma mutate_ready:
  assumes "ready s" and "timers_owned s"
  shows "step (Mutate f g) s =
           s\<lparr>c_jobs := f (c_jobs s), c_payments := g (c_payments s),
             timers := [(next_timer s, clock s + 500,
                         \<lparr>jobs = f (c_jobs s), payments = g (c_payments s)\<rparr>)],
             next_timer := next_timer s + 1,
             saveTimeoutRef := Some (next_timer s)\<rparr>"
proof -
  let ?s = "s\<lparr>c_jobs := f (c_jobs s), c_payments := g (c_payments s)\<rparr>"
  have "timers_owned ?s" using assms(2) by (simp add: timers_owned_def)
  from debouncedSave_owned [OF this] assms(1) show ?thesis
    by (simp add: save_effect_def ready_def working_copy_def)
qed

lemma tick_before_deadline:
  assumes "timers s = [(i, clock s + 500, p)]" and "d < 500"
  shows "tick d s = s\<lparr>clock := clock s + d\<rparr>"
  using assms by (simp add: tick_def)

lemma tick_after_deadline:
  assumes "timers s = [(i, clock s + 500, p)]" and "500 \<le> d"
  shows "tick d s = s\<lparr>clock := clock s + d, timers := [], writes := writes s @ [(clock s + 500, p)]\<rparr>"
  using assms by (simp add: tick_def)

lemma tick_no_timers: "timers s = [] \<Longrightarrow> tick d s = s\<lparr>clock := clock s + d\<rparr>"
  by (simp add: tick_def)

lemma step_timers_owned: "timers_owned s \<Longrightarrow> timers_owned (step ev s)"
proof (cases ev)
  case Mount
  assume "timers_owned s"
  from debouncedSave_owned [OF this] this show ?thesis
    using Mount by (simp add: save_effect_def timers_owned_def)
next
  case (LoadDone data)
  assume o: "timers_owned s"
  let ?s = "s\<lparr>c_jobs := (case fetched_jobs data of None \<Rightarrow> [] | Some loaded \<Rightarrow> loaded),
              c_payments := (case fetched_payments data of None \<Rightarrow> [] | Some loaded \<Rightarrow> loaded),
              isLoading := False\<rparr>"
  have "timers_owned ?s" using o by (simp add: timers_owned_def)
  from debouncedSave_owned [OF this] this show ?thesis
    using LoadDone by (simp add: save_effect_def timers_owned_def)
next
  case (Mutate f g)
  assume o: "timers_owned s"
  let ?s = "s\<lparr>c_jobs := f (c_jobs s), c_payments := g (c_payments s)\<rparr>"
  have "timers_owned ?s" using o by (simp add: timers_owned_def)
  from debouncedSave_owned [OF this] this show ?thesis
    using Mutate by (simp add: save_effect_def timers_owned_def)
next
  case (Tick d)
  assume "timers_owned s"
  then show ?thesis using Tick by (simp add: timers_owned_def tick_def list_all_iff)
qed

lemma reachable_timers_owned: "timers_owned (run evs initial_client)"
proof (induction evs rule: rev_induct)
  case Nil
  then show ?case by (simp add: run_def timers_owned_def initial_client_def)
next
  case (snoc ev evs)
  then show ?case by (simp add: run_append run_Cons run_Nil step_timers_owned)
qed

lemma load_schedules_save:
  "timers (run [Mount, LoadDone data] initial_client) =
     [(1, 500, \<lparr>jobs = (case fetched_jobs data of None \<Rightarrow> [] | Some loaded \<Rightarrow> loaded),
                payments = (case fetched_payments data of None \<Rightarrow> [] | Some loaded \<Rightarrow> loaded)\<rparr>)]"
  by (simp add: run_def initial_client_def save_effect_def debouncedSave_def Let_def)

text \<open>
  C2, at the input where the code departs from it. The save effect clears
  \<open>isInitialMount\<close> in the first render, while \<open>isLoading\<close> is still true. When the
  initial fetch completes, \<open>isLoading\<close> becomes false, the effect runs again, finds the
  guard already cleared and calls \<open>debouncedSave\<close>: with no mutation at all, a save of
  the loaded dataset is scheduled, and 500 ms later \<open>saveData\<close> is called.
  \<open>load_schedules_save\<close> shows this for every fetched dataset.
\<close>

theorem initial_load_triggers_save:
  "timers (run [Mount, LoadDone \<lparr>fetched_jobs = Some [sample_job], fetched_payments = Some []\<rparr>]
             initial_client)
     = [(1, 500, \<lparr>jobs = [sample_job], payments = []\<rparr>)]
   \<and> writes (run [Mount, LoadDone \<lparr>fetched_jobs = Some [sample_job], fetched_payments = Some []\<rparr>,
                  Tick 500] initial_client)
     = [(500, \<lparr>jobs = [sample_job], payments = []\<rparr>)]"
  by (simp add: run_def initial_client_def save_effect_def debouncedSave_def tick_def Let_def)

lemma burst_state:
  assumes "ready s" and "timers_owned s" and "\<forall>(m, d) \<in> set ms. d < 500"
  shows "ready (run (burst ms @ [Mutate f g]) s)
       \<and> timers_owned (run (burst ms @ [Mutate f g]) s)
       \<and> writes (run (burst ms @ [Mutate f g]) s) = writes s
       \<and> working_copy (run (burst ms @ [Mutate f g]) s) = mutated (map fst ms @ [(f, g)]) (working_copy s)
       \<and> clock (run (burst ms @ [Mutate f g]) s) = clock s + sum_list (map snd ms)
       \<and> (\<exists>i. timers (run (burst ms @ [Mutate f g]) s) =
                 [(i, clock s + sum_list (map snd ms) + 500,
                   mutated (map fst ms @ [(f, g)]) (working_copy s))])"
  using assms
proof (induction ms arbitrary: s)
  case Nil
  from mutate_ready [OF Nil(1,2), of f g] Nil(1) show ?case
    by (simp add: run_Cons run_Nil ready_def timers_owned_def working_copy_def)
next
  case (Cons a ms)
  obtain f0 g0 d0 where a: "a = ((f0, g0), d0)" by (cases a) auto
  define s1 where "s1 = step (Mutate f0 g0) s"
  define s2 where "s2 = tick d0 s1"
  have d0: "d0 < 500" using Cons.prems(3) a by simp
  have s1: "s1 = s\<lparr>c_jobs := f0 (c_jobs s), c_payments := g0 (c_payments s),
             timers := [(next_timer s, clock s + 500,
                         \<lparr>jobs = f0 (c_jobs s), payments = g0 (c_payments s)\<rparr>)],
             next_timer := next_timer s + 1,
             saveTimeoutRef := Some (next_timer s)\<rparr>"
    unfolding s1_def by (rule mutate_ready [OF Cons.prems(1,2)])
  have t1: "timers s1 = [(next_timer s, clock s1 + 500,
                         \<lparr>jobs = f0 (c_jobs s), payments = g0 (c_payments s)\<rparr>)]"
    by (simp add: s1)
  have s2: "s2 = s1\<lparr>clock := clock s1 + d0\<rparr>"
    unfolding s2_def by (rule tick_before_deadline [OF t1 d0])
  have r2: "ready s2" using Cons.prems(1) by (simp add: s2 s1 ready_def)
  have o2: "timers_owned s2" by (simp add: s2 s1 timers_owned_def)
  have rest: "\<forall>(m, d) \<in> set ms. d < 500" using Cons.prems(3) by simp
  have w2: "writes s2 = writes s" by (simp add: s2 s1)
  have c2: "clock s2 = clock s + d0" by (simp add: s2 s1)
  have k2: "working_copy s2 = \<lparr>jobs = f0 (jobs (working_copy s)), payments = g0 (payments (working_copy s))\<rparr>"
    by (simp add: s2 s1 working_copy_def)
  have unfold: "run (burst (a # ms) @ [Mutate f g]) s = run (burst ms @ [Mutate f g]) s2"
    unfolding s2_def s1_def by (simp add: a run_Cons)
  from Cons.IH [OF r2 o2 rest] show ?case
    unfolding unfold w2 c2 k2 by (simp add: a ac_simps)
qed

text \<open>
  C7. From a ready state, take \<open>K \<ge> 1\<close> mutations, each less than 500 ms after the one
  before (the pauses of \<open>ms\<close>, then the last mutation \<open>f\<close>, \<open>g\<close>). During the
  burst \<open>saveData\<close> is not called, and after the last mutation the one pending timer is
  due 500 ms later with the working copy of that moment as its payload: each mutation has
  cancelled the timer of the one before. Once \<open>d\<close> more milliseconds have passed,
  \<open>saveData\<close> has been called not at all if \<open>d < 500\<close>, and otherwise exactly once,
  at 500 ms after the last mutation, with the working copy after the last mutation; more
  time passing adds no call.
\<close>

theorem debounced_burst_single_write:
  assumes "ready s" and "timers_owned s" and "\<forall>(m, d) \<in> set ms. d < 500"
  shows "writes (run (burst ms @ [Mutate f g]) s) = writes s
       \<and> working_copy (run (burst ms @ [Mutate f g]) s) = mutated (map fst ms @ [(f, g)]) (working_copy s)
       \<and> clock (run (burst ms @ [Mutate f g]) s) = clock s + sum_list (map snd ms)
       \<and> (\<exists>i. timers (run (burst ms @ [Mutate f g]) s) =
                 [(i, clock s + sum_list (map snd ms) + 500,
                   mutated (map fst ms @ [(f, g)]) (working_copy s))])
       \<and> (\<forall>d. writes (run (burst ms @ [Mutate f g, Tick d]) s) =
                (if d < 500 then writes s
                 else writes s @ [(clock s + sum_list (map snd ms) + 500,
                                   mutated (map fst ms @ [(f, g)]) (working_copy s))]))
       \<and> (\<forall>d d'. 500 \<le> d \<longrightarrow>
              writes (run (burst ms @ [Mutate f g, Tick d, Tick d']) s) =
                writes s @ [(clock s + sum_list (map snd ms) + 500,
                             mutated (map fst ms @ [(f, g)]) (working_copy s))])"
proof -
  let ?s' = "run (burst ms @ [Mutate f g]) s"
  let ?w = "(clock s + sum_list (map snd ms) + 500, mutated (map fst ms @ [(f, g)]) (working_copy s))"
  note st = burst_state [OF assms, of f g]
  from st obtain i where t: "timers ?s' = [(i, clock ?s' + 500, snd ?w)]" by auto
  have w: "writes ?s' = writes s" and c: "clock ?s' = clock s + sum_list (map snd ms)"
    using st by simp_all
  have split1: "\<And>d. run (burst ms @ [Mutate f g, Tick d]) s = tick d ?s'"
    using run_append [of "burst ms @ [Mutate f g]" "[Tick d]" s for d]
    by (simp add: run_Cons run_Nil)
  have split2: "\<And>d d'. run (burst ms @ [Mutate f g, Tick d, Tick d']) s = tick d' (tick d ?s')"
    using run_append [of "burst ms @ [Mutate f g]" "[Tick d, Tick d']" s for d d']
    by (simp add: run_Cons run_Nil)
  have one: "\<And>d. writes (tick d ?s') = (if d < 500 then writes s else writes s @ [?w])"
  proof -
    fix d
    show "writes (tick d ?s') = (if d < 500 then writes s else writes s @ [?w])"
    proof (cases "d < 500")
      case True
      from tick_before_deadline [OF t True] w show ?thesis using True by simp
    next
      case False
      then have "500 \<le> d" by simp
      from tick_after_deadline [OF t this] w c show ?thesis using False by simp
    qed
  qed
  have two: "\<And>d d'. 500 \<le> d \<Longrightarrow> writes (tick d' (tick d ?s')) = writes s @ [?w]"
  proof -
    fix d d' :: nat
    assume "500 \<le> d"
    from tick_after_deadline [OF t this]
    have e: "tick d ?s' = ?s'\<lparr>clock := clock ?s' + d, timers := [], writes := writes ?s' @ [(clock ?s' + 500, snd ?w)]\<rparr>" .
    have "timers (tick d ?s') = []" by (simp add: e)
    from tick_no_timers [OF this, of d'] show "writes (tick d' (tick d ?s')) = writes s @ [?w]"
      by (simp add: e w c)
  qed
  show ?thesis using st one two unfolding split1 split2 by simp
qed

theorem debounced_burst_single_write_witness:
  "ready sample_ready_client \<and> timers_owned sample_ready_client
   \<and> map snd sample_burst = [100, 499]
   \<and> writes sample_ready_client = [(500, \<lparr>jobs = [], payments = []\<rparr>)]
   \<and> writes (run (burst sample_burst @ [Mutate (\<lambda>js. sample_job # js) (\<lambda>ps. ps), Tick 499])
               sample_ready_client)
       = [(500, \<lparr>jobs = [], payments = []\<rparr>)]
   \<and> writes (run (burst sample_burst @ [Mutate (\<lambda>js. sample_job # js) (\<lambda>ps. ps), Tick 500])
               sample_ready_client)
       = [(500, \<lparr>jobs = [], payments = []\<rparr>), (1699, \<lparr>jobs = [sample_job], payments = []\<rparr>)]
   \<and> writes (run (burst sample_burst
                    @ [Mutate (\<lambda>js. sample_job # js) (\<lambda>ps. ps), Tick 500, Tick 1000])
               sample_ready_client)
       = [(500, \<lparr>jobs = [], payments = []\<rparr>), (1699, \<lparr>jobs = [sample_job], payments = []\<rparr>)]"
proof -
  have s: "sample_ready_client =
      \<lparr>c_jobs = [], c_payments = [], isLoading = False, isInitialMount = False,
       saveTimeoutRef = Some 1, timers = [], next_timer = 2, clock = 600,
       writes = [(500, \<lparr>jobs = [], payments = []\<rparr>)]\<rparr>"
    by (simp add: sample_ready_client_def run_def initial_client_def save_effect_def
        debouncedSave_def tick_def Let_def)
  have h1: "ready sample_ready_client" by (simp add: s ready_def)
  have h2: "timers_owned sample_ready_client" by (simp add: s timers_owned_def)
  have h3: "\<forall>(m, d) \<in> set sample_burst. d < 500" by (simp add: sample_burst_def)
  have w: "writes sample_ready_client = [(500, \<lparr>jobs = [], payments = []\<rparr>)]" by (simp add: s)
  have c: "clock sample_ready_client + sum_list (map snd sample_burst) + 500 = 1699"
    by (simp add: s sample_burst_def)
  have m: "mutated (map fst sample_burst @ [(\<lambda>js. sample_job # js, \<lambda>ps. ps)])
             (working_copy sample_ready_client) = \<lparr>jobs = [sample_job], payments = []\<rparr>"
    by (simp add: s sample_burst_def working_copy_def)
  note inst = debounced_burst_single_write [OF h1 h2 h3, of "\<lambda>js. sample_job # js" "\<lambda>ps. ps"]
  from inst have
    "\<forall>d. writes (run (burst sample_burst @ [Mutate (\<lambda>js. sample_job # js) (\<lambda>ps. ps), Tick d])
                    sample_ready_client) =
         (if d < 500 then writes sample_ready_client
          else writes sample_ready_client
                 @ [(clock sample_ready_client + sum_list (map snd sample_burst) + 500,
                     mutated (map fst sample_burst @ [(\<lambda>js. sample_job # js, \<lambda>ps. ps)])
                       (working_copy sample_ready_client))])"
    by blast
  then have
    "writes (run (burst sample_burst @ [Mutate (\<lambda>js. sample_job # js) (\<lambda>ps. ps), Tick 499])
               sample_ready_client) = [(500, \<lparr>jobs = [], payments = []\<rparr>)]"
    "writes (run (burst sample_burst @ [Mutate (\<lambda>js. sample_job # js) (\<lambda>ps. ps), Tick 500])
               sample_ready_client)
       = [(500, \<lparr>jobs = [], payments = []\<rparr>), (1699, \<lparr>jobs = [sample_job], payments = []\<rparr>)]"
    unfolding c m w by simp_all
  moreover from inst have
    "\<forall>d d'. 500 \<le> d \<longrightarrow>
       writes (run (burst sample_burst
                      @ [Mutate (\<lambda>js. sample_job # js) (\<lambda>ps. ps), Tick d, Tick d'])
                 sample_ready_client) =
         writes sample_ready_client
           @ [(clock sample_ready_client + sum_list (map snd sample_burst) + 500,
               mutated (map fst sample_burst @ [(\<lambda>js. sample_job # js, \<lambda>ps. ps)])
                 (working_copy sample_ready_client))]"
    by blast
  then have
    "writes (run (burst sample_burst
                    @ [Mutate (\<lambda>js. sample_job # js) (\<lambda>ps. ps), Tick 500, Tick 1000])
               sample_ready_client)
       = [(500, \<lparr>jobs = [], payments = []\<rparr>), (1699, \<lparr>jobs = [sample_job], payments = []\<rparr>)]"
    unfolding c m w by simp
  moreover have "map snd sample_burst = [100, 499]" by (simp add: sample_burst_def)
  ultimately show ?thesis using h1 h2 w by blast
qed

end
